theory Spec2Isabelle
  imports Complex_Main "HOL-Library.Sublist"
begin

section \<open>Python values and library functions used by \<open>plot.py\<close>\<close>

text \<open>
  The script works on Python \<open>str\<close> values. A string is modelled as a \<open>char list\<close> with one
  \<open>char\<close> per code point, which covers text whose code points lie below 256. On that range
  \<open>str.strip()\<close> and the regular-expression class \<open>\s\<close> agree on the twelve white-space code
  points listed in \<open>isspace\<close>, and \<open>\d\<close> is the ten ASCII digits.
\<close>

datatype error = IndexError | ValueError

text \<open>
  The lists \<open>means\<close> and \<open>prob2048\<close> hold the integer \<open>0\<close> of the initial list and the results
  of \<open>float(...)\<close>. A float is represented by the exact rational value of the decimal text it
  was read from; the rounding to a binary double, and the overflow to \<open>inf\<close> of a text with
  more than 308 integer digits, are not represented. The statements below are about which
  texts convert and about positions in the lists, not about the values of floats.
\<close>

datatype pynum = PyInt int | PyFloat rat

definition isspace :: "char \<Rightarrow> bool" where
  "isspace c = (c \<in> set [CHR 0x09, CHR 0x0A, CHR 0x0B, CHR 0x0C, CHR 0x0D,
                          CHR 0x1C, CHR 0x1D, CHR 0x1E, CHR 0x1F, CHR 0x20,
                          CHR 0x85, CHR 0xA0])"

definition isdecimal :: "char \<Rightarrow> bool" where
  "isdecimal c = (c \<in> set ''0123456789'')"

text \<open>\<open>s.strip()\<close>: white space removed at both ends.\<close>

definition strip :: "string \<Rightarrow> string" where
  "strip s = rev (dropWhile isspace (rev (dropWhile isspace s)))"

text \<open>
  \<open>s.split(sep)\<close> for a non-empty separator (both separators of the script are literals):
  the text is scanned from the left, every occurrence of the separator found ends a piece
  and the scan goes on behind it. \<open>cur\<close> is the piece being collected.
\<close>

fun split_from :: "string \<Rightarrow> string \<Rightarrow> string \<Rightarrow> string list" where
  "split_from sep cur [] = [cur]"
| "split_from sep cur (c # cs) =
     (if prefix sep (c # cs) then cur # split_from sep [] (drop (length sep - 1) cs)
      else split_from sep (cur @ [c]) cs)"

definition str_split :: "string \<Rightarrow> string \<Rightarrow> string list" where
  "str_split sep s = split_from sep [] s"

text \<open>\<open>xs[i]\<close> for an index \<open>i \<ge> 0\<close>, and the assignment \<open>xs[-1] = v\<close>.\<close>

definition nth_err :: "'a list \<Rightarrow> nat \<Rightarrow> error + 'a" where
  "nth_err xs i = (if i < length xs then Inr (xs ! i) else Inl IndexError)"

definition set_last :: "'a list \<Rightarrow> 'a \<Rightarrow> error + 'a list" where
  "set_last xs v = (if xs = [] then Inl IndexError else Inr (butlast xs @ [v]))"

subsection \<open>\<open>int(...)\<close> and \<open>float(...)\<close> on text\<close>

definition digit_val :: "char \<Rightarrow> nat" where
  "digit_val c = of_char c - 48"

definition digits_val :: "string \<Rightarrow> nat" where
  "digits_val ds = foldl (\<lambda>a d. 10 * a + digit_val d) 0 ds"

text \<open>Decimal digits in groups that are separated by single underscores.\<close>

fun underscored_digits :: "string \<Rightarrow> bool" where
  "underscored_digits [] = False"
| "underscored_digits [c] = isdecimal c"
| "underscored_digits (c # d # cs) =
     (isdecimal c \<and> (if d = CHR ''_'' then underscored_digits cs else underscored_digits (d # cs)))"

text \<open>
  \<open>int(s)\<close> in base ten: white space around the text is dropped, one sign is allowed, the rest
  is digits with optional single underscores between them; anything else is a \<open>ValueError\<close>.
  \<open>maxd\<close> is the interpreter's setting \<open>sys.get_int_max_str_digits()\<close> (CPython 3.11 and later,
  4300 unless changed; \<open>0\<close> stands for no limit, which is also the behaviour of older
  interpreters): a text of more than 640 digits and more than \<open>maxd\<close> digits is a \<open>ValueError\<close>.
\<close>

definition py_int :: "nat \<Rightarrow> string \<Rightarrow> error + int" where
  "py_int maxd s =
     (let t = strip s;
          signed = (t \<noteq> [] \<and> (hd t = CHR ''+'' \<or> hd t = CHR ''-''));
          body = (if signed then tl t else t);
          ds = filter isdecimal body
      in if \<not> underscored_digits body then Inl ValueError
         else if 640 < length ds \<and> 0 < maxd \<and> maxd < length ds then Inl ValueError
         else Inr (if signed \<and> hd t = CHR ''-'' then - int (digits_val ds) else int (digits_val ds)))"

text \<open>
  \<open>float(s)\<close> on text made of digits and dots, which is all the script passes to it (the text
  captured by \<open>[\d.]+\<close>): the text is a number when it has at least one digit and at most one
  dot, and a \<open>ValueError\<close> otherwise. Signs, exponents, underscores, \<open>inf\<close> and \<open>nan\<close> cannot
  occur in such text and are not covered.
\<close>

definition py_float :: "string \<Rightarrow> error + rat" where
  "py_float s =
     (let ip = takeWhile isdecimal s; r = dropWhile isdecimal s
      in if r = [] then (if ip = [] then Inl ValueError else Inr (of_nat (digits_val ip)))
         else if hd r = CHR ''.'' \<and> list_all isdecimal (tl r) \<and> (ip \<noteq> [] \<or> tl r \<noteq> [])
              then Inr (of_nat (digits_val (ip @ tl r)) / 10 ^ length (tl r))
         else Inl ValueError)"

subsection \<open>Regular expressions\<close>

text \<open>
  Every pattern of the script is a sequence of character classes, each taken once or
  repeated by \<open>*\<close> or \<open>+\<close>, with at most one capturing group around one repeated class.
  The matcher below follows the backtracking search of Python's \<open>re\<close>: for an item and a
  text it lists, in the order in which \<open>re\<close> tries them (a greedy repetition tries the
  longest run first), the texts that can remain behind a match of the item.
\<close>

datatype cls = Digit | Space | DigitDot | Ch char

fun in_cls :: "cls \<Rightarrow> char \<Rightarrow> bool" where
  "in_cls Digit c = isdecimal c"
| "in_cls Space c = isspace c"
| "in_cls DigitDot c = (isdecimal c \<or> c = CHR ''.'')"
| "in_cls (Ch x) c = (c = x)"

datatype item = One cls | Star cls | Plus cls

fun star_rests :: "cls \<Rightarrow> string \<Rightarrow> string list" where
  "star_rests k [] = [[]]"
| "star_rests k (c # cs) = (if in_cls k c then star_rests k cs @ [c # cs] else [c # cs])"

fun item_rests :: "item \<Rightarrow> string \<Rightarrow> string list" where
  "item_rests (One k) [] = []"
| "item_rests (One k) (c # cs) = (if in_cls k c then [cs] else [])"
| "item_rests (Star k) s = star_rests k s"
| "item_rests (Plus k) [] = []"
| "item_rests (Plus k) (c # cs) = (if in_cls k c then star_rests k cs else [])"

fun re_rests :: "item list \<Rightarrow> string \<Rightarrow> string list" where
  "re_rests [] s = [s]"
| "re_rests (i # r) s = concat (map (re_rests r) (item_rests i s))"

text \<open>\<open>re.match(r, s)\<close> finds a match of \<open>r\<close> at the start of \<open>s\<close>.\<close>

definition re_match :: "item list \<Rightarrow> string \<Rightarrow> bool" where
  "re_match r s = (re_rests r s \<noteq> [])"

text \<open>
  A pattern with one group is given as the items before the group, the item inside it and
  the items behind it. \<open>group_here\<close> is the text of the group in the first match that starts
  at the beginning of \<open>s\<close>; \<open>re_search\<close> tries every start position from the left, as
  \<open>re.search(r, s)\<close> does, and returns \<open>group(1)\<close> of the match found.
\<close>

definition group_here :: "item list \<times> item \<times> item list \<Rightarrow> string \<Rightarrow> string option" where
  "group_here p s =
     (case p of (pre, grp, post) \<Rightarrow>
        (case concat (map (\<lambda>r1. concat (map (\<lambda>r2. map (\<lambda>r3. take (length r1 - length r2) r1)
                                                      (re_rests post r2))
                                           (item_rests grp r1)))
                          (re_rests pre s)) of
           [] \<Rightarrow> None
         | g # _ \<Rightarrow> Some g))"

fun re_search :: "item list \<times> item \<times> item list \<Rightarrow> string \<Rightarrow> string option" where
  "re_search p [] = group_here p []"
| "re_search p (c # cs) =
     (case group_here p (c # cs) of Some g \<Rightarrow> Some g | None \<Rightarrow> re_search p cs)"

text \<open>\<open>re.split(r'\s+', s)\<close>: the pieces between the maximal runs of white space.\<close>

function re_split_ws_from :: "string \<Rightarrow> string \<Rightarrow> string list" where
  "re_split_ws_from cur [] = [cur]"
| "re_split_ws_from cur (c # cs) =
     (if isspace c then cur # re_split_ws_from [] (dropWhile isspace cs)
      else re_split_ws_from (cur @ [c]) cs)"
  by pat_completeness auto
termination
  by (relation "measure (\<lambda>(cur, s). length s)")
     (auto simp: length_dropWhile_le le_imp_less_Suc)

definition re_split_ws :: "string \<Rightarrow> string list" where
  "re_split_ws s = re_split_ws_from [] s"

definition lit :: "string \<Rightarrow> item list" where
  "lit s = map (\<lambda>c. One (Ch c)) s"

text \<open>\<^verbatim>\<open>^\d+\s+mean\s*=\s*[\d.]+\s+max\s*=\s*[\d.]+\<close>\<close>

definition episode_re :: "item list" where
  "episode_re = [Plus Digit, Plus Space] @ lit ''mean'' @
                [Star Space, One (Ch CHR ''=''), Star Space, Plus DigitDot, Plus Space] @
                lit ''max'' @ [Star Space, One (Ch CHR ''=''), Star Space, Plus DigitDot]"

text \<open>\<^verbatim>\<open>mean\s*=\s*([\d.]+)\<close>\<close>

definition mean_re :: "item list \<times> item \<times> item list" where
  "mean_re = (lit ''mean'' @ [Star Space, One (Ch CHR ''=''), Star Space], Plus DigitDot, [])"

text \<open>\<^verbatim>\<open>^\s*2048\s+[\d.]+%\<close>\<close>

definition prob_line_re :: "item list" where
  "prob_line_re = [Star Space] @ lit ''2048'' @ [Plus Space, Plus DigitDot, One (Ch CHR ''%'')]"

text \<open>\<^verbatim>\<open>2048\s+([\d.]+)%\<close>\<close>

definition prob_re :: "item list \<times> item \<times> item list" where
  "prob_re = (lit ''2048'' @ [Plus Space], Plus DigitDot, [One (Ch CHR ''%'')])"

text \<open>
  The text in front of the first occurrence of \<open>sep\<close> in \<open>s\<close> (all of \<open>s\<close> when there is
  none), and the text behind that occurrence (empty when there is none).
\<close>

fun text_before :: "string \<Rightarrow> string \<Rightarrow> string" where
  "text_before sep [] = []"
| "text_before sep (c # cs) = (if prefix sep (c # cs) then [] else c # text_before sep cs)"

fun text_after :: "string \<Rightarrow> string \<Rightarrow> string" where
  "text_after sep [] = []"
| "text_after sep (c # cs) =
     (if prefix sep (c # cs) then drop (length sep) (c # cs) else text_after sep cs)"

section \<open>\<open>parse_2048_training_data\<close>\<close>

text \<open>The four local variables that the loop updates and the function returns.\<close>

record pstate =
  metadata :: "string \<rightharpoonup> string"
  episodes :: "int list"
  means :: "pynum list"
  prob2048 :: "pynum list"

definition init_state :: pstate where
  "init_state = \<lparr>metadata = Map.empty, episodes = [0], means = [PyInt 0], prob2048 = [PyFloat 0]\<rparr>"

text \<open>\<^verbatim>\<open>metadata[key] = line.split(' = ')[1]\<close>\<close>

definition metadata_line :: "string \<Rightarrow> string \<Rightarrow> pstate \<Rightarrow> error + pstate" where
  "metadata_line key line st =
     (case nth_err (str_split '' = '' line) 1 of
        Inl e \<Rightarrow> Inl e
      | Inr v \<Rightarrow> Inr (st\<lparr>metadata := (metadata st)(key \<mapsto> v)\<rparr>))"

text \<open>
  The body of the episode branch; \<open>mean_match\<close> is the result of
  \<^verbatim>\<open>re.search(r'mean\s*=\s*([\d.]+)', line)\<close>, given as the text of its group.
\<close>

definition episode_line :: "nat \<Rightarrow> string \<Rightarrow> string option \<Rightarrow> pstate \<Rightarrow> error + pstate" where
  "episode_line maxd line mean_match st =
     (let parts = re_split_ws line;
          st1 = st\<lparr>prob2048 := prob2048 st @ [PyFloat 0]\<rparr>
      in case nth_err parts 0 of
           Inl e \<Rightarrow> Inl e
         | Inr p0 \<Rightarrow>
            (case py_int maxd p0 of
               Inl e \<Rightarrow> Inl e
             | Inr episode \<Rightarrow>
                (case mean_match of
                   None \<Rightarrow> Inr st1
                 | Some g \<Rightarrow>
                    (case py_float g of
                       Inl e \<Rightarrow> Inl e
                     | Inr mean_score \<Rightarrow>
                         Inr (st1\<lparr>episodes := episodes st1 @ [episode],
                                  means := means st1 @ [PyFloat mean_score]\<rparr>)))))"

text \<open>
  The body of the probability branch; \<open>prob_match\<close> is the result of
  \<^verbatim>\<open>re.search(r'2048\s+([\d.]+)%', line)\<close>.
\<close>

definition probability_line :: "string option \<Rightarrow> pstate \<Rightarrow> error + pstate" where
  "probability_line prob_match st =
     (case prob_match of
        None \<Rightarrow> Inr st
      | Some g \<Rightarrow>
         (case py_float g of
            Inl e \<Rightarrow> Inl e
          | Inr prob \<Rightarrow>
             (case set_last (prob2048 st) (PyFloat prob) of
                Inl e \<Rightarrow> Inl e
              | Inr ps \<Rightarrow> Inr (st\<lparr>prob2048 := ps\<rparr>))))"

text \<open>One pass through the body of the \<open>while\<close> loop, for the line \<open>lines[i]\<close>.\<close>

definition parse_line :: "nat \<Rightarrow> string \<Rightarrow> pstate \<Rightarrow> error + pstate" where
  "parse_line maxd raw st =
     (let line = strip raw
      in if prefix ''alpha = '' line then metadata_line ''alpha'' line st
         else if prefix ''total = '' line then metadata_line ''total'' line st
         else if prefix ''seed = '' line then metadata_line ''seed'' line st
         else if re_match episode_re line then episode_line maxd line (re_search mean_re line) st
         else if re_match prob_line_re line then probability_line (re_search prob_re line) st
         else Inr st)"

text \<open>
  The branch of the \<open>if\<close>/\<open>elif\<close> chain that a line takes, as a value of its own, for use
  in statements about the lines of an input.
\<close>

datatype kind = Metadata string | Episode | Probability | Other

definition line_kind :: "string \<Rightarrow> kind" where
  "line_kind raw =
     (let line = strip raw
      in if prefix ''alpha = '' line then Metadata ''alpha''
         else if prefix ''total = '' line then Metadata ''total''
         else if prefix ''seed = '' line then Metadata ''seed''
         else if re_match episode_re line then Episode
         else if re_match prob_line_re line then Probability
         else Other)"

text \<open>The loop over \<open>lines[i]\<close>, \<open>lines[i+1]\<close>, ...: an exception ends it.\<close>

fun run_lines :: "nat \<Rightarrow> string list \<Rightarrow> pstate \<Rightarrow> error + pstate" where
  "run_lines maxd [] st = Inr st"
| "run_lines maxd (l # ls) st =
     (case parse_line maxd l st of Inl e \<Rightarrow> Inl e | Inr st' \<Rightarrow> run_lines maxd ls st')"

definition data_lines :: "string \<Rightarrow> string list" where
  "data_lines data = str_split [CHR 0x0A] (strip data)"

definition parse_2048_training_data ::
  "nat \<Rightarrow> string \<Rightarrow> error + ((string \<rightharpoonup> string) \<times> int list \<times> pynum list \<times> pynum list)" where
  "parse_2048_training_data maxd data =
     (case run_lines maxd (data_lines data) init_state of
        Inl e \<Rightarrow> Inl e
      | Inr st \<Rightarrow> Inr (metadata st, episodes st, means st, prob2048 st))"

section \<open>The tick positions of \<open>plot_2048_training_results\<close>\<close>

text \<open>
  \<open>range(start, stop, step)\<close> as the list of its elements; a step of zero is a \<open>ValueError\<close>.
\<close>

definition range_len :: "int \<Rightarrow> int \<Rightarrow> int \<Rightarrow> nat" where
  "range_len start stop step =
     (if 0 < step then (if start < stop then nat ((stop - start - 1) div step + 1) else 0)
      else (if stop < start then nat ((start - stop - 1) div (- step) + 1) else 0))"

definition py_range :: "int \<Rightarrow> int \<Rightarrow> int \<Rightarrow> error + int list" where
  "py_range start stop step =
     (if step = 0 then Inl ValueError
      else Inr (map (\<lambda>k. start + int k * step) [0..<range_len start stop step]))"

text \<open>
  The block under \<^verbatim>\<open>if episodes:\<close>, which is the same for both charts; \<open>None\<close> when the list
  is empty and no ticks are set.
\<close>

definition x_ticks :: "int list \<Rightarrow> error + int list option" where
  "x_ticks eps =
     (case eps of
        [] \<Rightarrow> Inr None
      | e # es \<Rightarrow>
         (let x_min = (fold min es e div 1000) * 1000;
              x_max = (fold max es e div 1000) * 1000 + 1
          in case py_range x_min x_max ((x_max - x_min) div 10) of
               Inl err \<Rightarrow> Inl err
             | Inr t \<Rightarrow> Inr (Some t)))"

text \<open>
  \<open>plot_2048_training_results\<close> as far as the script computes anything itself: the data is
  parsed, then the ticks of the first and of the second chart are computed. The calls into
  the plotting library are not represented.
\<close>

definition plot_2048_training_results ::
  "nat \<Rightarrow> string \<Rightarrow> error + (int list option \<times> int list option)" where
  "plot_2048_training_results maxd data =
     (case parse_2048_training_data maxd data of
        Inl e \<Rightarrow> Inl e
      | Inr (md, eps, ms, ps) \<Rightarrow>
         (case x_ticks eps of
            Inl e \<Rightarrow> Inl e
          | Inr t1 \<Rightarrow> (case x_ticks eps of Inl e \<Rightarrow> Inl e | Inr t2 \<Rightarrow> Inr (t1, t2))))"

section \<open>Notions used in the statements\<close>

text \<open>The three lists have the same length and hold at least the initial entry.\<close>

definition aligned :: "pstate \<Rightarrow> bool" where
  "aligned st \<longleftrightarrow> length (episodes st) = length (means st) \<and>
                 length (means st) = length (prob2048 st) \<and> 1 \<le> length (episodes st)"

text \<open>
  The lines on which a conversion of captured text to a number raises: an episode line
  whose episode number has more digits than \<open>int\<close> accepts, and an episode or probability
  line whose captured number is not accepted by \<open>float\<close>.
\<close>

definition too_many_digits :: "nat \<Rightarrow> string \<Rightarrow> bool" where
  "too_many_digits maxd ds \<longleftrightarrow> 640 < length ds \<and> 0 < maxd \<and> maxd < length ds"

definition float_fails :: "string option \<Rightarrow> bool" where
  "float_fails m = (case m of None \<Rightarrow> False | Some g \<Rightarrow> isl (py_float g))"

definition conversion_fails :: "nat \<Rightarrow> string \<Rightarrow> bool" where
  "conversion_fails maxd raw =
     (case line_kind raw of
        Episode \<Rightarrow> too_many_digits maxd (takeWhile isdecimal (strip raw)) \<or>
                   float_fails (re_search mean_re (strip raw))
      | Probability \<Rightarrow> float_fails (re_search prob_re (strip raw))
      | _ \<Rightarrow> False)"

text \<open>
  The upper end of the tick span in the words of the specification,
  \<open>floor(max(episodes)/1000)*1000 + 1000\<close>, for comparison with \<open>x_ticks\<close>.
\<close>

definition spec_x_max :: "int list \<Rightarrow> int" where
  "spec_x_max eps = Max (set eps) div 1000 * 1000 + 1000"

section \<open>Regular expressions: matches and searches\<close>

lemma concat_map_concat:
  "concat (map f (concat xss)) = concat (map (\<lambda>xs. concat (map f xs)) xss)"
  by (induction xss) simp_all

lemma first_None_iff: "(case xs of [] \<Rightarrow> None | g # _ \<Rightarrow> Some g) = None \<longleftrightarrow> xs = []"
  by (cases xs) simp_all

lemma re_rests_append: "re_rests (a @ b) s = concat (map (re_rests b) (re_rests a s))"
proof (induction a arbitrary: s)
  case Nil
  show ?case by simp
next
  case (Cons i a)
  have "re_rests (a @ b) = (\<lambda>u. concat (map (re_rests b) (re_rests a u)))"
    using Cons.IH by (intro ext)
  then show ?case
    by (simp add: concat_map_concat comp_def)
qed

lemma star_rests_suffix: "t \<in> set (star_rests k s) \<Longrightarrow> suffix t s"
  by (induction s) (auto simp: suffix_Cons split: if_splits)

lemma item_rests_suffix: "t \<in> set (item_rests i s) \<Longrightarrow> suffix t s"
  by (cases i; cases s) (auto simp: suffix_Cons split: if_splits dest: star_rests_suffix)

lemma re_rests_suffix: "t \<in> set (re_rests r s) \<Longrightarrow> suffix t s"
proof (induction r arbitrary: s)
  case Nil
  then show ?case by simp
next
  case (Cons i r)
  then obtain u where "u \<in> set (item_rests i s)" "t \<in> set (re_rests r u)"
    by auto
  then show ?case
    using Cons.IH item_rests_suffix suffix_order.trans by blast
qed

lemma concat_map_empty_iff: "concat (map f xs) = [] \<longleftrightarrow> (\<forall>x \<in> set xs. f x = [])"
  by (induction xs) auto

lemma group_here_None_iff:
  "group_here (pre, grp, post) s = None \<longleftrightarrow> re_rests (pre @ grp # post) s = []"
proof -
  let ?C = "concat (map (\<lambda>r1. concat (map (\<lambda>r2. map (\<lambda>r3. take (length r1 - length r2) r1)
                (re_rests post r2)) (item_rests grp r1))) (re_rests pre s))"
  have "group_here (pre, grp, post) s = None \<longleftrightarrow> ?C = []"
    unfolding group_here_def prod.case first_None_iff ..
  also have "\<dots> \<longleftrightarrow> re_rests (pre @ grp # post) s = []"
    by (simp add: re_rests_append concat_map_empty_iff)
  finally show ?thesis .
qed

lemma re_search_found:
  "suffix t s \<Longrightarrow> group_here p t \<noteq> None \<Longrightarrow> re_search p s \<noteq> None"
proof (induction s)
  case Nil
  then show ?case by simp
next
  case (Cons c cs)
  show ?case
  proof (cases "t = c # cs")
    case True
    with Cons.prems show ?thesis by (auto split: option.splits)
  next
    case False
    with Cons.prems have "suffix t cs" by (simp add: suffix_Cons)
    with Cons show ?thesis by (auto split: option.splits)
  qed
qed

lemma re_rests_append_nonempty:
  "re_rests (a @ m @ b) s \<noteq> [] \<Longrightarrow> \<exists>t. suffix t s \<and> re_rests m t \<noteq> []"
proof -
  assume "re_rests (a @ m @ b) s \<noteq> []"
  then obtain t where t: "t \<in> set (re_rests a s)" "re_rests (m @ b) t \<noteq> []"
    by (auto simp: re_rests_append[of a] concat_map_empty_iff)
  from t(2) have "re_rests m t \<noteq> []"
    by (auto simp: re_rests_append[of m])
  with t(1) show ?thesis using re_rests_suffix by blast
qed

lemma episode_has_mean: "re_match episode_re line \<Longrightarrow> re_search mean_re line \<noteq> None"
proof -
  assume "re_match episode_re line"
  then have "re_rests ([Plus Digit, Plus Space] @ (lit ''mean'' @ [Star Space, One (Ch CHR ''=''), Star Space] @ Plus DigitDot # []) @
     ([Plus Space] @ lit ''max'' @ [Star Space, One (Ch CHR ''=''), Star Space, Plus DigitDot])) line \<noteq> []"
    by (simp add: re_match_def episode_re_def)
  then obtain t where "suffix t line"
     "re_rests (lit ''mean'' @ [Star Space, One (Ch CHR ''=''), Star Space] @ Plus DigitDot # []) t \<noteq> []"
    using re_rests_append_nonempty by blast
  then have "suffix t line" "group_here mean_re t \<noteq> None"
    by (simp_all add: mean_re_def group_here_None_iff)
  then show ?thesis by (rule re_search_found)
qed

lemma probability_has_number: "re_match prob_line_re line \<Longrightarrow> re_search prob_re line \<noteq> None"
proof -
  assume "re_match prob_line_re line"
  then have "re_rests ([Star Space] @ (lit ''2048'' @ [Plus Space] @ Plus DigitDot # [One (Ch CHR ''%'')]) @ []) line \<noteq> []"
    by (simp add: re_match_def prob_line_re_def)
  then obtain t where "suffix t line"
     "re_rests (lit ''2048'' @ [Plus Space] @ Plus DigitDot # [One (Ch CHR ''%'')]) t \<noteq> []"
    using re_rests_append_nonempty by blast
  then have "suffix t line" "group_here prob_re t \<noteq> None"
    by (simp_all add: prob_re_def group_here_None_iff)
  then show ?thesis by (rule re_search_found)
qed

section \<open>The branches of the loop body\<close>

lemma parse_line_kind:
  "parse_line maxd raw st =
     (case line_kind raw of
        Metadata k \<Rightarrow> metadata_line k (strip raw) st
      | Episode \<Rightarrow> episode_line maxd (strip raw) (re_search mean_re (strip raw)) st
      | Probability \<Rightarrow> probability_line (re_search prob_re (strip raw)) st
      | Other \<Rightarrow> Inr st)"
  by (simp add: parse_line_def line_kind_def Let_def)

lemma split_from_hd:
  "split_from sep cur s \<noteq> [] \<and> hd (split_from sep cur s) = cur @ text_before sep s"
  by (induction s arbitrary: cur) simp_all

lemma split_alpha:
  "prefix ''alpha = '' line \<Longrightarrow>
   str_split '' = '' line = ''alpha'' # split_from '' = '' [] (drop 8 line)"
  by (auto simp: prefix_def str_split_def)

lemma split_total:
  "prefix ''total = '' line \<Longrightarrow>
   str_split '' = '' line = ''total'' # split_from '' = '' [] (drop 8 line)"
  by (auto simp: prefix_def str_split_def)

lemma split_seed:
  "prefix ''seed = '' line \<Longrightarrow>
   str_split '' = '' line = ''seed'' # split_from '' = '' [] (drop 7 line)"
  by (auto simp: prefix_def str_split_def)

lemma nth_err_second:
  "nth_err (x # split_from sep cur s) (Suc 0) = Inr (cur @ text_before sep s)"
  using split_from_hd[of sep cur s]
  by (cases "split_from sep cur s") (simp_all add: nth_err_def)

lemma metadata_line_value:
  assumes "line_kind raw = Metadata k"
  shows "metadata_line k (strip raw) st =
           Inr (st\<lparr>metadata := (metadata st)(k \<mapsto> text_before '' = '' (drop (length k + 3) (strip raw)))\<rparr>)"
  using assms
  by (auto simp: line_kind_def Let_def metadata_line_def split_alpha split_total split_seed
      nth_err_second split: if_splits)

lemma metadata_line_fields:
  "metadata_line k line st = Inr st' \<Longrightarrow>
   episodes st' = episodes st \<and> means st' = means st \<and> prob2048 st' = prob2048 st"
  by (auto simp: metadata_line_def split: sum.splits)

lemma episode_line_fields:
  "episode_line maxd line m st = Inr st' \<Longrightarrow>
   metadata st' = metadata st \<and> prob2048 st' = prob2048 st @ [PyFloat 0] \<and>
   (case m of
      None \<Rightarrow> episodes st' = episodes st \<and> means st' = means st
    | Some g \<Rightarrow> length (episodes st') = Suc (length (episodes st)) \<and>
                length (means st') = Suc (length (means st)))"
  by (auto simp: episode_line_def Let_def split: sum.splits option.splits)

lemma probability_line_fields:
  "probability_line m st = Inr st' \<Longrightarrow>
   metadata st' = metadata st \<and> episodes st' = episodes st \<and> means st' = means st \<and>
   length (prob2048 st') = length (prob2048 st)"
  by (auto simp: probability_line_def set_last_def split: sum.splits option.splits if_splits)

lemma parse_line_aligned:
  assumes "parse_line maxd raw st = Inr st'" "aligned st"
  shows "aligned st'"
proof (cases "line_kind raw")
  case (Metadata k)
  with assms show ?thesis
    by (auto simp: parse_line_kind aligned_def dest!: metadata_line_fields)
next
  case Episode
  then have "re_match episode_re (strip raw)"
    by (auto simp: line_kind_def Let_def split: if_splits)
  then obtain g where "re_search mean_re (strip raw) = Some g"
    using episode_has_mean by blast
  with Episode assms show ?thesis
    by (auto simp: parse_line_kind aligned_def dest!: episode_line_fields)
next
  case Probability
  with assms show ?thesis
    by (auto simp: parse_line_kind aligned_def dest!: probability_line_fields)
next
  case Other
  with assms show ?thesis by (simp add: parse_line_kind)
qed

lemma run_lines_aligned:
  "run_lines maxd ls st = Inr st' \<Longrightarrow> aligned st \<Longrightarrow> aligned st'"
proof (induction ls arbitrary: st)
  case Nil
  then show ?case by simp
next
  case (Cons l ls)
  then show ?case
    by (auto split: sum.splits dest: parse_line_aligned)
qed

lemma aligned_init: "aligned init_state"
  by (simp add: aligned_def init_state_def)

lemma run_lines_append:
  "run_lines maxd (xs @ ys) st =
     (case run_lines maxd xs st of Inl e \<Rightarrow> Inl e | Inr st' \<Rightarrow> run_lines maxd ys st')"
  by (induction xs arbitrary: st) (auto split: sum.splits)

section \<open>Evaluation on concrete inputs\<close>

lemmas eval_defs = parse_2048_training_data_def data_lines_def strip_def str_split_def isspace_def
  parse_line_def re_match_def episode_re_def lit_def isdecimal_def episode_line_def re_split_ws_def
  nth_err_def py_int_def digits_val_def digit_val_def mean_re_def group_here_def py_float_def
  init_state_def prob_line_re_def prob_re_def probability_line_def set_last_def metadata_line_def
  line_kind_def Let_def

section \<open>The claims\<close>

subsection \<open>Alignment of the three sequences\<close>

text \<open>
  C4. Whenever the parse returns, the three sequences \<open>episodes\<close>, \<open>means\<close> and
  \<open>tileProbability\<close> have the same length, which is at least one (the initial entry).
  The reason is that a line matching the episode pattern always lets the search for
  \<open>mean = <number>\<close> succeed, so that each placeholder appended to \<open>tileProbability\<close> comes
  with an episode and a mean.
\<close>

theorem parse_sequences_aligned:
  "(parse_2048_training_data maxd data = Inr (md, eps, ms, ps) \<longrightarrow>
      length eps = length ms \<and> length ms = length ps \<and> 1 \<le> length eps) \<and>
   (re_match episode_re line \<longrightarrow> re_search mean_re line \<noteq> None)"
proof (intro conjI impI)
  assume a: "parse_2048_training_data maxd data = Inr (md, eps, ms, ps)"
  then obtain st where st: "run_lines maxd (data_lines data) init_state = Inr st"
    and r: "eps = episodes st" "ms = means st" "ps = prob2048 st"
    by (auto simp: parse_2048_training_data_def split: sum.splits)
  from run_lines_aligned[OF st aligned_init]
  show "length eps = length ms" "length ms = length ps" "1 \<le> length eps"
    by (simp_all add: aligned_def r)
next
  assume "re_match episode_re line"
  then show "re_search mean_re line \<noteq> None" by (rule episode_has_mean)
qed

theorem parse_sequences_aligned_witness:
  "parse_2048_training_data 0 ''7 mean = 1.5 max = 2'' =
     Inr (Map.empty, [0, 7], [PyInt 0, PyFloat (3 / 2)], [PyFloat 0, PyFloat 0]) \<and>
   length [0, 7 :: int] = length [PyInt 0, PyFloat (3 / 2)] \<and>
   length [PyInt 0, PyFloat (3 / 2)] = length [PyFloat 0, PyFloat 0] \<and>
   1 \<le> length [0, 7 :: int] \<and>
   re_match episode_re ''7 mean = 1.5 max = 2'' \<and>
   re_search mean_re ''7 mean = 1.5 max = 2'' \<noteq> None"
proof -
  have p: "parse_2048_training_data 0 ''7 mean = 1.5 max = 2'' =
     Inr (Map.empty, [0, 7], [PyInt 0, PyFloat (3 / 2)], [PyFloat 0, PyFloat 0])"
    by (simp add: eval_defs)
  have m: "re_match episode_re ''7 mean = 1.5 max = 2''"
    by (simp add: eval_defs)
  from p m parse_sequences_aligned[of 0 "''7 mean = 1.5 max = 2''" Map.empty "[0, 7]"
      "[PyInt 0, PyFloat (3 / 2)]" "[PyFloat 0, PyFloat 0]" "''7 mean = 1.5 max = 2''"]
  show ?thesis by blast
qed

subsection \<open>Input without recognised lines\<close>

lemma run_lines_other:
  "\<forall>raw \<in> set ls. line_kind raw = Other \<Longrightarrow> run_lines maxd ls st = Inr st"
  by (induction ls) (simp_all add: parse_line_kind)

text \<open>
  C6. When no line of the input is a metadata, episode or probability line (the empty
  input included), the parser returns an empty metadata map and the three sequences with
  their initial entry only: \<open>episodes = [0]\<close>, \<open>means = [0]\<close>, \<open>tileProbability = [0.0]\<close>.
\<close>

theorem unrecognized_input_gives_sentinels:
  "((\<forall>raw \<in> set (data_lines data). line_kind raw = Other) \<longrightarrow>
      parse_2048_training_data maxd data = Inr (Map.empty, [0], [PyInt 0], [PyFloat 0])) \<and>
   parse_2048_training_data maxd [] = Inr (Map.empty, [0], [PyInt 0], [PyFloat 0])"
proof (intro conjI impI)
  assume "\<forall>raw \<in> set (data_lines data). line_kind raw = Other"
  then have "run_lines maxd (data_lines data) init_state = Inr init_state"
    by (rule run_lines_other)
  then show "parse_2048_training_data maxd data = Inr (Map.empty, [0], [PyInt 0], [PyFloat 0])"
    by (simp add: parse_2048_training_data_def init_state_def)
next
  have "data_lines [] = [[]]"
    by (simp add: data_lines_def strip_def str_split_def)
  moreover have "line_kind [] = Other"
    by (simp add: eval_defs)
  ultimately have "run_lines maxd (data_lines []) init_state = Inr init_state"
    by (simp add: parse_line_kind)
  then show "parse_2048_training_data maxd [] = Inr (Map.empty, [0], [PyInt 0], [PyFloat 0])"
    by (simp add: parse_2048_training_data_def init_state_def)
qed

theorem unrecognized_input_gives_sentinels_witness:
  "data_lines (''TD(0) log'' @ [CHR 0x0A] @ ''alpha=0.1'') = [''TD(0) log'', ''alpha=0.1''] \<and>
   line_kind ''TD(0) log'' = Other \<and> line_kind ''alpha=0.1'' = Other \<and>
   parse_2048_training_data 0 (''TD(0) log'' @ [CHR 0x0A] @ ''alpha=0.1'') =
     Inr (Map.empty, [0], [PyInt 0], [PyFloat 0])"
proof -
  have k: "line_kind ''TD(0) log'' = Other" "line_kind ''alpha=0.1'' = Other"
    by (simp_all add: eval_defs)
  have l: "data_lines (''TD(0) log'' @ [CHR 0x0A] @ ''alpha=0.1'') = [''TD(0) log'', ''alpha=0.1'']"
    by (simp add: data_lines_def strip_def str_split_def isspace_def)
  have h: "\<forall>raw \<in> set (data_lines (''TD(0) log'' @ [CHR 0x0A] @ ''alpha=0.1'')). line_kind raw = Other"
    unfolding l using k by simp
  from l k h unrecognized_input_gives_sentinels[of "''TD(0) log'' @ [CHR 0x0A] @ ''alpha=0.1''" 0]
  show ?thesis by blast
qed

subsection \<open>Metadata values\<close>

lemma kind_metadata_iff:
  "k \<in> {''alpha'', ''total'', ''seed''} \<Longrightarrow>
   line_kind raw = Metadata k \<longleftrightarrow> prefix (k @ '' = '') (strip raw)"
  by (auto simp: line_kind_def Let_def prefix_def)

lemma kind_metadata_key:
  "line_kind raw = Metadata k \<Longrightarrow> k \<in> {''alpha'', ''total'', ''seed''}"
  by (auto simp: line_kind_def Let_def split: if_splits)

lemma text_after_key:
  "k \<in> {''alpha'', ''total'', ''seed''} \<Longrightarrow> prefix (k @ '' = '') line \<Longrightarrow>
   text_after '' = '' line = drop (length k + 3) line"
  by (auto simp: prefix_def)

lemma parse_line_metadata:
  assumes "parse_line maxd raw st = Inr st'" "k \<in> {''alpha'', ''total'', ''seed''}"
  shows "metadata st' k =
           (if prefix (k @ '' = '') (strip raw)
            then Some (text_before '' = '' (text_after '' = '' (strip raw)))
            else metadata st k)"
proof (cases "line_kind raw")
  case (Metadata k')
  have k': "k' \<in> {''alpha'', ''total'', ''seed''}"
    using Metadata by (rule kind_metadata_key)
  have st': "st' = st\<lparr>metadata := (metadata st)(k' \<mapsto>
                 text_before '' = '' (drop (length k' + 3) (strip raw)))\<rparr>"
    using assms(1) metadata_line_value[OF Metadata] by (simp add: parse_line_kind Metadata)
  show ?thesis
  proof (cases "k = k'")
    case True
    then have "prefix (k @ '' = '') (strip raw)"
      using Metadata kind_metadata_iff[OF assms(2)] by simp
    with True show ?thesis
      by (simp add: st' text_after_key[OF assms(2)])
  next
    case False
    then have "\<not> prefix (k @ '' = '') (strip raw)"
      using Metadata kind_metadata_iff[OF assms(2), of raw] by simp
    with False show ?thesis by (simp add: st')
  qed
next
  case Episode
  then have "\<not> prefix (k @ '' = '') (strip raw)"
    using kind_metadata_iff[OF assms(2), of raw] by simp
  with Episode assms(1) show ?thesis
    by (auto simp: parse_line_kind dest!: episode_line_fields)
next
  case Probability
  then have "\<not> prefix (k @ '' = '') (strip raw)"
    using kind_metadata_iff[OF assms(2), of raw] by simp
  with Probability assms(1) show ?thesis
    by (auto simp: parse_line_kind dest!: probability_line_fields)
next
  case Other
  then have "\<not> prefix (k @ '' = '') (strip raw)"
    using kind_metadata_iff[OF assms(2), of raw] by simp
  with Other assms(1) show ?thesis
    by (auto simp: parse_line_kind)
qed

lemma run_lines_metadata:
  assumes "k \<in> {''alpha'', ''total'', ''seed''}"
  shows "run_lines maxd ls st = Inr st' \<Longrightarrow>
   metadata st' k =
     (case filter (prefix (k @ '' = '')) (map strip ls) of
        [] \<Rightarrow> metadata st k
      | x # xs \<Rightarrow> Some (text_before '' = '' (text_after '' = '' (last (x # xs)))))"
proof (induction ls arbitrary: st)
  case Nil
  then show ?case by simp
next
  case (Cons l ls)
  from Cons.prems obtain st1 where 1: "parse_line maxd l st = Inr st1"
    and 2: "run_lines maxd ls st1 = Inr st'"
    by (auto split: sum.splits)
  show ?case
    using parse_line_metadata[OF 1 assms] Cons.IH[OF 2]
    by (auto split: list.splits if_splits)
qed

text \<open>
  C1, as stated: the value stored for a metadata line is the whole text behind the first
  \<open>" = "\<close>. The line \<open>alpha = 1 = 2\<close> shows that it is not: \<open>split(' = ')[1]\<close> is \<open>1\<close>, while
  the text behind the first separator is \<open>1 = 2\<close>.
\<close>

theorem metadata_value_counterexample:
  "parse_2048_training_data 0 ''alpha = 1 = 2'' =
     Inr ([''alpha'' \<mapsto> ''1''], [0], [PyInt 0], [PyFloat 0]) \<and>
   text_after '' = '' ''alpha = 1 = 2'' = ''1 = 2''"
  by (simp add: eval_defs)

text \<open>
  C1, amended. For a trimmed line that begins with \<open>alpha = \<close>, \<open>total = \<close> or \<open>seed = \<close> the
  parser stores under the key the text between the first \<open>" = "\<close> and the next \<open>" = "\<close>
  (up to the end of the line when there is no other), as a string and unchanged. For a
  parse that returns, the metadata map holds for each of the three keys the value of the
  last line with that prefix, and nothing when there is no such line.
\<close>

theorem metadata_last_write_wins:
  "(line_kind raw = Metadata k \<longrightarrow>
      parse_line maxd raw st =
        Inr (st\<lparr>metadata := (metadata st)(k \<mapsto>
               text_before '' = '' (text_after '' = '' (strip raw)))\<rparr>)) \<and>
   (key \<in> {''alpha'', ''total'', ''seed''} \<longrightarrow>
    parse_2048_training_data maxd data = Inr (md, eps, ms, ps) \<longrightarrow>
      md key =
        (case filter (prefix (key @ '' = '')) (map strip (data_lines data)) of
           [] \<Rightarrow> None
         | x # xs \<Rightarrow> Some (text_before '' = '' (text_after '' = '' (last (x # xs))))))"
proof (intro conjI impI)
  assume m: "line_kind raw = Metadata k"
  then have k: "k \<in> {''alpha'', ''total'', ''seed''}"
    by (rule kind_metadata_key)
  with m have "prefix (k @ '' = '') (strip raw)"
    by (simp add: kind_metadata_iff)
  then have "text_after '' = '' (strip raw) = drop (length k + 3) (strip raw)"
    using k by (simp add: text_after_key)
  then show "parse_line maxd raw st =
        Inr (st\<lparr>metadata := (metadata st)(k \<mapsto>
               text_before '' = '' (text_after '' = '' (strip raw)))\<rparr>)"
    using metadata_line_value[OF m] by (simp add: parse_line_kind m)
next
  assume key: "key \<in> {''alpha'', ''total'', ''seed''}"
    and p: "parse_2048_training_data maxd data = Inr (md, eps, ms, ps)"
  from p obtain fin where fin: "run_lines maxd (data_lines data) init_state = Inr fin"
    and r: "md = metadata fin"
    by (auto simp: parse_2048_training_data_def split: sum.splits)
  have "metadata init_state key = None"
    by (simp add: init_state_def)
  with run_lines_metadata[OF key fin]
  show "md key =
        (case filter (prefix (key @ '' = '')) (map strip (data_lines data)) of
           [] \<Rightarrow> None
         | x # xs \<Rightarrow> Some (text_before '' = '' (text_after '' = '' (last (x # xs)))))"
    by (simp add: r split: list.splits)
qed

theorem metadata_last_write_wins_witness:
  "line_kind ''  seed = 7 '' = Metadata ''seed'' \<and>
   parse_line 0 ''  seed = 7 '' init_state =
     Inr (init_state\<lparr>metadata := (metadata init_state)(''seed'' \<mapsto>
            text_before '' = '' (text_after '' = '' (strip ''  seed = 7 '')))\<rparr>) \<and>
   text_before '' = '' (text_after '' = '' (strip ''  seed = 7 '')) = ''7'' \<and>
   ''seed'' \<in> {''alpha'', ''total'', ''seed''} \<and>
   parse_2048_training_data 0 (''seed = 42 = x'' @ [CHR 0x0A] @ ''  seed = 7 '') =
     Inr ([''seed'' \<mapsto> ''7''], [0], [PyInt 0], [PyFloat 0]) \<and>
   [''seed'' \<mapsto> ''7''] ''seed'' =
     (case filter (prefix (''seed'' @ '' = ''))
            (map strip (data_lines (''seed = 42 = x'' @ [CHR 0x0A] @ ''  seed = 7 ''))) of
        [] \<Rightarrow> None
      | x # xs \<Rightarrow> Some (text_before '' = '' (text_after '' = '' (last (x # xs)))))"
proof -
  have m: "line_kind ''  seed = 7 '' = Metadata ''seed''"
    by (simp add: eval_defs)
  have v: "text_before '' = '' (text_after '' = '' (strip ''  seed = 7 '')) = ''7''"
    by (simp add: strip_def isspace_def)
  have k: "''seed'' \<in> {''alpha'', ''total'', ''seed''}" by simp
  have p: "parse_2048_training_data 0 (''seed = 42 = x'' @ [CHR 0x0A] @ ''  seed = 7 '') =
     Inr ([''seed'' \<mapsto> ''7''], [0], [PyInt 0], [PyFloat 0])"
    by (simp add: eval_defs)
  from m v k p
    metadata_last_write_wins[of "''  seed = 7 ''" "''seed''" 0 init_state "''seed''"
      "''seed = 42 = x'' @ [CHR 0x0A] @ ''  seed = 7 ''" "[''seed'' \<mapsto> ''7'']"
      "[0]" "[PyInt 0]" "[PyFloat 0]"]
  show ?thesis by blast
qed

subsection \<open>Metadata lines and the separator\<close>

lemma key_without_separator_ignored:
  assumes "k \<in> {''alpha'', ''total'', ''seed''}" "prefix k (strip raw)"
    "\<not> prefix (k @ '' = '') (strip raw)"
  shows "line_kind raw = Other"
proof -
  from assms(2) obtain t where t: "strip raw = k @ t"
    by (auto simp: prefix_def)
  from assms(1,3) have "\<not> prefix ''alpha = '' (strip raw)" "\<not> prefix ''total = '' (strip raw)"
     "\<not> prefix ''seed = '' (strip raw)"
    unfolding t by (auto simp: prefix_def)
  moreover from assms(1) have "\<not> re_match episode_re (strip raw)"
    unfolding t by (auto simp: re_match_def episode_re_def isdecimal_def)
  moreover from assms(1) have "\<not> re_match prob_line_re (strip raw)"
    unfolding t by (auto simp: re_match_def prob_line_re_def lit_def isspace_def)
  ultimately show ?thesis
    by (simp add: line_kind_def Let_def)
qed

lemma metadata_split_length:
  assumes "line_kind raw = Metadata k"
  shows "1 < length (str_split '' = '' (strip raw))"
proof -
  have "1 < length (x # split_from sep cur s)" for x :: string and sep cur s
    using split_from_hd[of sep cur s] by (cases "split_from sep cur s") simp_all
  with assms show ?thesis
    by (auto simp: line_kind_def Let_def split_alpha split_total split_seed split: if_splits)
qed

text \<open>
  C5, as stated: a line that starts with a metadata key but lacks the separator \<open>" = "\<close>
  makes the parse fail. The lines \<open>alpha=0.1\<close> and \<open>alpha = \<close> (which is \<open>alpha =\<close> once
  trimmed) have no separator, and the parse returns, with no metadata.
\<close>

theorem malformed_metadata_counterexample:
  "parse_2048_training_data 0 ''alpha=0.1'' = Inr (Map.empty, [0], [PyInt 0], [PyFloat 0]) \<and>
   parse_2048_training_data 0 ''alpha = '' = Inr (Map.empty, [0], [PyInt 0], [PyFloat 0])"
  by (simp add: eval_defs)

text \<open>
  C5, amended. The metadata branch cannot fail: a line that takes it begins with
  \<open>alpha = \<close>, \<open>total = \<close> or \<open>seed = \<close> and so contains the separator, \<open>split(' = ')\<close> has
  at least two pieces and the index \<open>[1]\<close> is in range. A line that begins with one of the
  keys and has no separator is not a metadata line; it is ignored and the parse goes on.
\<close>

theorem metadata_branch_never_faults:
  "(line_kind raw = Metadata k \<longrightarrow>
      sublist '' = '' (strip raw) \<and> 1 < length (str_split '' = '' (strip raw)) \<and>
      \<not> isl (parse_line maxd raw st)) \<and>
   (key \<in> {''alpha'', ''total'', ''seed''} \<longrightarrow> prefix key (strip raw') \<longrightarrow>
    \<not> sublist '' = '' (strip raw') \<longrightarrow> parse_line maxd raw' st = Inr st)"
proof (intro conjI impI)
  assume m: "line_kind raw = Metadata k"
  then have "k \<in> {''alpha'', ''total'', ''seed''}"
    by (rule kind_metadata_key)
  with m have "prefix (k @ '' = '') (strip raw)"
    by (simp add: kind_metadata_iff)
  then obtain t where "strip raw = k @ '' = '' @ t"
    by (auto simp: prefix_def)
  then show "sublist '' = '' (strip raw)"
    unfolding sublist_def by blast
  from m show "1 < length (str_split '' = '' (strip raw))"
    by (rule metadata_split_length)
  from metadata_line_value[OF m, of st]
  show "\<not> isl (parse_line maxd raw st)"
    by (simp add: parse_line_kind m)
next
  assume key: "key \<in> {''alpha'', ''total'', ''seed''}" and pre: "prefix key (strip raw')"
    and nosep: "\<not> sublist '' = '' (strip raw')"
  have "\<not> prefix (key @ '' = '') (strip raw')"
  proof
    assume "prefix (key @ '' = '') (strip raw')"
    then obtain t where "strip raw' = key @ '' = '' @ t"
      by (auto simp: prefix_def)
    then have "sublist '' = '' (strip raw')"
      unfolding sublist_def by blast
    with nosep show False by simp
  qed
  from key_without_separator_ignored[OF key pre this]
  show "parse_line maxd raw' st = Inr st"
    by (simp add: parse_line_kind)
qed

theorem metadata_branch_never_faults_witness:
  "line_kind ''total = 1000'' = Metadata ''total'' \<and>
   sublist '' = '' (strip ''total = 1000'') \<and>
   1 < length (str_split '' = '' (strip ''total = 1000'')) \<and>
   \<not> isl (parse_line 0 ''total = 1000'' init_state) \<and>
   ''total'' \<in> {''alpha'', ''total'', ''seed''} \<and>
   prefix ''total'' (strip ''total: 1000'') \<and>
   \<not> sublist '' = '' (strip ''total: 1000'') \<and>
   parse_line 0 ''total: 1000'' init_state = Inr init_state"
proof -
  have m: "line_kind ''total = 1000'' = Metadata ''total''"
    by (simp add: eval_defs)
  have k: "''total'' \<in> {''alpha'', ''total'', ''seed''}" by simp
  have p: "prefix ''total'' (strip ''total: 1000'')"
    by (simp add: strip_def isspace_def)
  have n: "\<not> sublist '' = '' (strip ''total: 1000'')"
    by (simp add: strip_def isspace_def sublist_Cons_right)
  from m k p n
    metadata_branch_never_faults[of "''total = 1000''" "''total''" 0 init_state "''total''"
      "''total: 1000''"]
  show ?thesis by blast
qed

subsection \<open>Errors raised by the parse\<close>

lemma star_rests_split:
  "t \<in> set (star_rests k s) \<Longrightarrow> \<exists>ds. s = ds @ t \<and> list_all (in_cls k) ds"
proof (induction s)
  case Nil
  then show ?case by simp
next
  case (Cons c cs)
  show ?case
  proof (cases "t = c # cs")
    case True
    then show ?thesis by simp
  next
    case False
    with Cons.prems have c: "in_cls k c" and "t \<in> set (star_rests k cs)"
      by (auto split: if_splits)
    with Cons.IH obtain ds where "cs = ds @ t" "list_all (in_cls k) ds"
      by blast
    with c have "c # cs = (c # ds) @ t \<and> list_all (in_cls k) (c # ds)"
      by simp
    then show ?thesis by blast
  qed
qed

lemma decimal_not_space: "isdecimal c \<Longrightarrow> \<not> isspace c"
  by (auto simp: isdecimal_def isspace_def)

lemma episode_line_shape:
  assumes "re_match episode_re line"
  shows "\<exists>ds c t. line = ds @ c # t \<and> ds \<noteq> [] \<and> list_all isdecimal ds \<and> isspace c"
proof -
  from assms have ne: "concat (map (re_rests (tl episode_re)) (item_rests (Plus Digit) line)) \<noteq> []"
    by (simp add: re_match_def episode_re_def)
  then obtain u where u: "u \<in> set (item_rests (Plus Digit) line)" "re_rests (tl episode_re) u \<noteq> []"
    by (auto simp: concat_map_empty_iff)
  from u(1) obtain d cs where l: "line = d # cs" "isdecimal d" "u \<in> set (star_rests Digit cs)"
    by (cases line) (auto split: if_splits)
  from star_rests_split[OF l(3)] obtain ds where ds: "cs = ds @ u" "list_all isdecimal ds"
    by (auto simp: list_all_iff)
  from u(2) have "item_rests (Plus Space) u \<noteq> []"
    by (auto simp: episode_re_def)
  then obtain c t where ct: "u = c # t" "isspace c"
    by (cases u) (auto split: if_splits)
  have "line = (d # ds) @ c # t \<and> d # ds \<noteq> [] \<and> list_all isdecimal (d # ds) \<and> isspace c"
    using l ds ct by simp
  then show ?thesis by blast
qed

lemma re_split_ws_from_run:
  "list_all (\<lambda>c. \<not> isspace c) xs \<Longrightarrow> isspace c \<Longrightarrow>
   re_split_ws_from cur (xs @ c # t) = (cur @ xs) # re_split_ws_from [] (dropWhile isspace t)"
  by (induction xs arbitrary: cur) simp_all

lemma re_split_ws_from_nonempty: "re_split_ws_from cur s \<noteq> []"
  by (induction cur s rule: re_split_ws_from.induct) simp_all

lemma underscored_digits_all: "ds \<noteq> [] \<Longrightarrow> list_all isdecimal ds \<Longrightarrow> underscored_digits ds"
  by (induction ds rule: underscored_digits.induct) (auto simp: isdecimal_def)

lemma strip_no_space:
  assumes "ds \<noteq> []" "list_all (\<lambda>c. \<not> isspace c) ds"
  shows "strip ds = ds"
proof -
  from assms have "\<not> isspace (hd ds)" "\<not> isspace (last ds)"
    by (auto simp: list_all_iff)
  with assms(1) have "dropWhile isspace ds = ds" "dropWhile isspace (rev ds) = rev ds"
    by (simp_all add: dropWhile_eq_self_iff hd_rev)
  then show ?thesis by (simp add: strip_def)
qed

lemma py_int_digits:
  assumes "ds \<noteq> []" "list_all isdecimal ds"
  shows "py_int maxd ds =
           (if too_many_digits maxd ds then Inl ValueError else Inr (int (digits_val ds)))"
proof -
  from assms(2) have ns: "list_all (\<lambda>c. \<not> isspace c) ds"
    by (auto simp: list_all_iff decimal_not_space)
  have s: "strip ds = ds" using assms(1) ns by (rule strip_no_space)
  from assms have "isdecimal (hd ds)" by (cases ds) auto
  then have sg: "hd ds \<noteq> CHR ''+''" "hd ds \<noteq> CHR ''-''"
    by (auto simp: isdecimal_def)
  from assms(2) have f: "filter isdecimal ds = ds"
    by (simp add: list_all_iff)
  show ?thesis
    using underscored_digits_all[OF assms] sg
    by (simp add: py_int_def s f too_many_digits_def Let_def)
qed

lemma episode_number:
  assumes "re_match episode_re line"
  shows "nth_err (re_split_ws line) 0 = Inr (takeWhile isdecimal line) \<and>
         py_int maxd (takeWhile isdecimal line) =
           (if too_many_digits maxd (takeWhile isdecimal line) then Inl ValueError
            else Inr (int (digits_val (takeWhile isdecimal line))))"
proof -
  from episode_line_shape[OF assms] obtain ds c t where
    l: "line = ds @ c # t" "ds \<noteq> []" "list_all isdecimal ds" "isspace c"
    by blast
  from l(3) have ns: "list_all (\<lambda>c. \<not> isspace c) ds"
    by (auto simp: list_all_iff decimal_not_space)
  from l(4) have "\<not> isdecimal c" using decimal_not_space by blast
  with l(3) have tw: "takeWhile isdecimal line = ds"
    by (simp add: l(1) list_all_iff takeWhile_append2)
  have "re_split_ws line = ds # re_split_ws_from [] (dropWhile isspace t)"
    using re_split_ws_from_run[OF ns l(4), of "[]" t] by (simp add: re_split_ws_def l(1))
  then have "nth_err (re_split_ws line) 0 = Inr ds"
    by (simp add: nth_err_def)
  with py_int_digits[OF l(2,3)] show ?thesis by (simp add: tw)
qed

lemma parse_line_raises:
  assumes "prob2048 st \<noteq> []"
  shows "parse_line maxd raw st = Inl e \<longleftrightarrow> e = ValueError \<and> conversion_fails maxd raw"
proof (cases "line_kind raw")
  case (Metadata k)
  then show ?thesis
    by (simp add: parse_line_kind conversion_fails_def metadata_line_value)
next
  case Episode
  then have m: "re_match episode_re (strip raw)"
    by (auto simp: line_kind_def Let_def split: if_splits)
  then obtain g where g: "re_search mean_re (strip raw) = Some g"
    using episode_has_mean by blast
  from episode_number[OF m, of maxd] show ?thesis
    by (cases "py_float g"; cases e)
       (auto simp: parse_line_kind Episode conversion_fails_def episode_line_def g float_fails_def
          Let_def py_float_def split: if_splits)
next
  case Probability
  show ?thesis
  proof (cases "re_search prob_re (strip raw)")
    case None
    then show ?thesis
      by (simp add: parse_line_kind Probability conversion_fails_def probability_line_def
          float_fails_def)
  next
    case (Some g)
    with assms show ?thesis
      by (cases "py_float g"; cases e)
         (auto simp: parse_line_kind Probability conversion_fails_def probability_line_def
            float_fails_def set_last_def py_float_def Let_def split: if_splits)
  qed
next
  case Other
  then show ?thesis
    by (simp add: parse_line_kind conversion_fails_def)
qed

lemma run_lines_raises:
  "prob2048 st \<noteq> [] \<Longrightarrow> aligned st \<Longrightarrow>
   run_lines maxd ls st = Inl e \<longleftrightarrow> e = ValueError \<and> (\<exists>raw \<in> set ls. conversion_fails maxd raw)"
proof (induction ls arbitrary: st)
  case Nil
  then show ?case by simp
next
  case (Cons l ls)
  show ?case
  proof (cases "parse_line maxd l st")
    case (Inl e')
    with parse_line_raises[OF Cons.prems(1), of maxd l e'] show ?thesis
      by auto
  next
    case (Inr st1)
    with parse_line_raises[OF Cons.prems(1), of maxd l ValueError]
    have nf: "\<not> conversion_fails maxd l" by simp
    from parse_line_aligned[OF Inr Cons.prems(2)] have a: "aligned st1" .
    then have "prob2048 st1 \<noteq> []" by (auto simp: aligned_def)
    from Cons.IH[OF this a] nf Inr show ?thesis by simp
  qed
qed

text \<open>
  C3, as stated: no text captured inside a line of the episode or probability shape makes
  the parse raise. The episode line \<open>1 mean = 1.2.3 max = 4\<close> and the probability line
  \<open>2048 1..5%\<close> do: the captured texts \<open>1.2.3\<close> and \<open>1..5\<close> are passed to \<open>float\<close>, which raises
  \<open>ValueError\<close>. Neither input has a metadata line.
\<close>

theorem number_conversion_counterexample:
  "line_kind ''1 mean = 1.2.3 max = 4'' = Episode \<and>
   re_search mean_re ''1 mean = 1.2.3 max = 4'' = Some ''1.2.3'' \<and>
   parse_2048_training_data 0 ''1 mean = 1.2.3 max = 4'' = Inl ValueError \<and>
   line_kind ''2048 1..5%'' = Probability \<and>
   parse_2048_training_data 0 ''2048 1..5%'' = Inl ValueError"
  by (simp add: eval_defs)

text \<open>
  C3, amended. A search for the number that finds nothing inside a line of the episode or
  probability shape is tolerated: the episode line then only leaves its placeholder, the
  probability line changes nothing, and no error is raised. A captured text that is not a
  number for \<open>float\<close> (no digit, or more than one dot), or an episode number with more digits
  than \<open>int\<close> accepts, raises \<open>ValueError\<close> and ends the parse. The parse raises no other
  error, and it raises exactly when some line of the input has such a text.
\<close>

theorem only_number_conversions_raise:
  "(line_kind raw = Episode \<longrightarrow> \<not> too_many_digits maxd (takeWhile isdecimal (strip raw)) \<longrightarrow>
      episode_line maxd (strip raw) None st = Inr (st\<lparr>prob2048 := prob2048 st @ [PyFloat 0]\<rparr>)) \<and>
   probability_line None st = Inr st \<and>
   (parse_2048_training_data maxd data = Inl e \<longleftrightarrow>
      e = ValueError \<and> (\<exists>l \<in> set (data_lines data). conversion_fails maxd l))"
proof (intro conjI impI)
  assume k: "line_kind raw = Episode"
    and d: "\<not> too_many_digits maxd (takeWhile isdecimal (strip raw))"
  from k have "re_match episode_re (strip raw)"
    by (auto simp: line_kind_def Let_def split: if_splits)
  from episode_number[OF this, of maxd] d
  show "episode_line maxd (strip raw) None st = Inr (st\<lparr>prob2048 := prob2048 st @ [PyFloat 0]\<rparr>)"
    by (simp add: episode_line_def Let_def)
next
  show "probability_line None st = Inr st"
    by (simp add: probability_line_def)
next
  have "prob2048 init_state \<noteq> []"
    by (simp add: init_state_def)
  from run_lines_raises[OF this aligned_init, of maxd "data_lines data" e]
  show "parse_2048_training_data maxd data = Inl e \<longleftrightarrow>
      e = ValueError \<and> (\<exists>l \<in> set (data_lines data). conversion_fails maxd l)"
    by (auto simp: parse_2048_training_data_def split: sum.splits)
qed

theorem only_number_conversions_raise_witness:
  "line_kind ''7 mean = 1.5 max = 2'' = Episode \<and>
   \<not> too_many_digits 4300 (takeWhile isdecimal (strip ''7 mean = 1.5 max = 2'')) \<and>
   episode_line 4300 (strip ''7 mean = 1.5 max = 2'') None init_state =
     Inr (init_state\<lparr>prob2048 := prob2048 init_state @ [PyFloat 0]\<rparr>) \<and>
   probability_line None init_state = Inr init_state \<and>
   parse_2048_training_data 4300 ''1 mean = 1.2.3 max = 4'' = Inl ValueError \<and>
   (\<exists>l \<in> set (data_lines ''1 mean = 1.2.3 max = 4''). conversion_fails 4300 l)"
proof -
  have k: "line_kind ''7 mean = 1.5 max = 2'' = Episode"
    by (simp add: eval_defs)
  have d: "\<not> too_many_digits 4300 (takeWhile isdecimal (strip ''7 mean = 1.5 max = 2''))"
    by (simp add: too_many_digits_def strip_def isspace_def isdecimal_def)
  have p: "parse_2048_training_data 4300 ''1 mean = 1.2.3 max = 4'' = Inl ValueError"
    by (simp add: eval_defs)
  from k d p
    only_number_conversions_raise[of "''7 mean = 1.5 max = 2''" 4300 init_state
      "''1 mean = 1.2.3 max = 4''" ValueError]
  show ?thesis by blast
qed

subsection \<open>Tick positions\<close>

lemma x_ticks_Cons:
  "x_ticks (e # es) =
     (let x_min = (Min (set (e # es)) div 1000) * 1000;
          x_max = (Max (set (e # es)) div 1000) * 1000 + 1
      in case py_range x_min x_max ((x_max - x_min) div 10) of
           Inl err \<Rightarrow> Inl err
         | Inr t \<Rightarrow> Inr (Some t))"
  by (simp add: x_ticks_def Min.set_eq_fold Max.set_eq_fold del: Min_insert Max_insert set_simps)

lemma x_ticks_nonempty:
  assumes "eps \<noteq> []"
  shows "x_ticks eps =
     (case py_range (Min (set eps) div 1000 * 1000) (Max (set eps) div 1000 * 1000 + 1)
             ((Max (set eps) div 1000 * 1000 + 1 - Min (set eps) div 1000 * 1000) div 10) of
        Inl err \<Rightarrow> Inl err
      | Inr t \<Rightarrow> Inr (Some t))"
proof -
  from assms obtain e es where eps: "eps = e # es" by (cases eps) auto
  show ?thesis
    unfolding eps x_ticks_Cons Let_def ..
qed

lemma x_ticks_same_block:
  assumes "eps \<noteq> []" "Min (set eps) div 1000 = Max (set eps) div 1000"
  shows "x_ticks eps = Inl ValueError"
proof -
  from assms(1) obtain e es where eps: "eps = e # es" by (cases eps) auto
  show ?thesis
    using assms(2) unfolding eps x_ticks_Cons
    by (simp add: Let_def py_range_def del: Min_insert Max_insert set_simps)
qed

lemma tick_step: "(d * 1000 + 1) div 10 = d * (100::int)"
proof -
  have "(1 + (d * 100) * 10) div 10 = d * 100 + 1 div (10::int)"
    by (rule div_mult_self1) simp
  moreover have "d * 1000 + 1 = 1 + (d * 100) * 10" by simp
  ultimately show ?thesis by simp
qed

lemma tick_count: "0 < d \<Longrightarrow> (d * 1000) div (d * 100) = (10::int)"
proof -
  assume d: "0 < d"
  have "d * 1000 = 10 * (d * 100)" by simp
  then have "(d * 1000) div (d * 100) = (10 * (d * 100)) div (d * 100)" by (rule arg_cong)
  also have "\<dots> = 10" using d by (subst nonzero_mult_div_cancel_right) simp_all
  finally show ?thesis .
qed

lemma range_len_up:
  "0 < step \<Longrightarrow> start < stop \<Longrightarrow>
   range_len start stop step = nat ((stop - start - 1) div step + 1)"
  by (simp add: range_len_def)

lemma x_ticks_blocks:
  assumes "eps \<noteq> []" "Min (set eps) div 1000 < Max (set eps) div 1000"
  shows "x_ticks eps =
           Inr (Some (map (\<lambda>k. Min (set eps) div 1000 * 1000 +
                               int k * ((Max (set eps) div 1000 - Min (set eps) div 1000) * 100))
                          [0..<11]))"
proof -
  from assms(1) obtain e es where eps: "eps = e # es" by (cases eps) auto
  define a where "a = Min (set eps) div 1000"
  define b where "b = Max (set eps) div 1000"
  define d where "d = b - a"
  have d: "0 < d" using assms(2) by (simp add: a_def b_def d_def)
  have xm: "b * 1000 + 1 - a * 1000 = d * 1000 + 1"
    by (simp add: d_def algebra_simps)
  have xm1: "b * 1000 + 1 - a * 1000 - 1 = d * 1000"
    by (simp add: d_def algebra_simps)
  have st: "(b * 1000 + 1 - a * 1000) div 10 = d * 100"
    unfolding xm by (rule tick_step)
  have len: "range_len (a * 1000) (b * 1000 + 1) (d * 100) = 11"
  proof -
    have 1: "0 < d * 100" using d by simp
    have 2: "a * 1000 < b * 1000 + 1" using d by (simp add: d_def)
    have 3: "(b * 1000 + 1 - a * 1000 - 1) div (d * 100) = 10"
      unfolding xm1 using d by (rule tick_count)
    have "range_len (a * 1000) (b * 1000 + 1) (d * 100) =
            nat ((b * 1000 + 1 - a * 1000 - 1) div (d * 100) + 1)"
      using 1 2 by (rule range_len_up)
    also have "\<dots> = 11" unfolding 3 by simp
    finally show ?thesis .
  qed
  have "x_ticks eps =
      (case py_range (a * 1000) (b * 1000 + 1) ((b * 1000 + 1 - a * 1000) div 10) of
           Inl err \<Rightarrow> Inl err
         | Inr t \<Rightarrow> Inr (Some t))"
    unfolding a_def b_def using assms(1) by (rule x_ticks_nonempty)
  also have "\<dots> = Inr (Some (map (\<lambda>k. a * 1000 + int k * (d * 100)) [0..<11]))"
    unfolding st py_range_def len using d by simp
  finally show ?thesis by (simp only: a_def b_def d_def)
qed

text \<open>
  C7, as stated: for every non-empty \<open>episodes\<close> the ticks are ten even steps from
  \<open>floor(min/1000)*1000\<close> to \<open>floor(max/1000)*1000 + 1000\<close>. For \<open>episodes = [0, 2500]\<close> the
  ticks end at 2000, not at 3000; for \<open>episodes = [0, 500]\<close> there are no ticks at all,
  the computation raises.
\<close>

theorem x_ticks_span_counterexample:
  "x_ticks [0, 2500] =
     Inr (Some [0, 200, 400, 600, 800, 1000, 1200, 1400, 1600, 1800, 2000]) \<and>
   spec_x_max [0, 2500] = 3000 \<and>
   x_ticks [0, 500] = Inl ValueError"
  by (simp add: x_ticks_def py_range_def range_len_def spec_x_max_def upt_conv_Cons)

text \<open>
  C7, amended. For every \<open>episodes\<close> whose minimum and maximum lie in different blocks of
  1000, the ticks of both charts are the eleven positions of ten even steps that span from
  \<open>floor(min(episodes)/1000)*1000\<close> to \<open>floor(max(episodes)/1000)*1000\<close>; the step is a tenth
  of that span. (The bound \<open>x_max\<close> of the range is the upper end plus one, so that the
  upper end is the last tick.)
\<close>

theorem x_ticks_ten_steps:
  assumes "eps \<noteq> []" and "Min (set eps) div 1000 < Max (set eps) div 1000"
  shows "x_ticks eps =
           Inr (Some (map (\<lambda>k. Min (set eps) div 1000 * 1000 +
                               int k * ((Max (set eps) div 1000 - Min (set eps) div 1000) * 100))
                          [0..<11])) \<and>
         Min (set eps) div 1000 * 1000 +
           10 * ((Max (set eps) div 1000 - Min (set eps) div 1000) * 100) =
         Max (set eps) div 1000 * 1000"
proof
  show "x_ticks eps =
           Inr (Some (map (\<lambda>k. Min (set eps) div 1000 * 1000 +
                               int k * ((Max (set eps) div 1000 - Min (set eps) div 1000) * 100))
                          [0..<11]))"
    using assms by (rule x_ticks_blocks)
next
  show "Min (set eps) div 1000 * 1000 +
           10 * ((Max (set eps) div 1000 - Min (set eps) div 1000) * 100) =
         Max (set eps) div 1000 * 1000"
    by (simp add: algebra_simps)
qed

theorem x_ticks_ten_steps_witness:
  "[0, 2500 :: int] \<noteq> [] \<and>
   Min (set [0, 2500 :: int]) div 1000 < Max (set [0, 2500 :: int]) div 1000 \<and>
   x_ticks [0, 2500] =
     Inr (Some (map (\<lambda>k. Min (set [0, 2500 :: int]) div 1000 * 1000 +
                 int k * ((Max (set [0, 2500 :: int]) div 1000 - Min (set [0, 2500 :: int]) div 1000) * 100))
                [0..<11])) \<and>
   Min (set [0, 2500 :: int]) div 1000 * 1000 +
     10 * ((Max (set [0, 2500 :: int]) div 1000 - Min (set [0, 2500 :: int]) div 1000) * 100) =
   Max (set [0, 2500 :: int]) div 1000 * 1000"
proof -
  have n: "[0, 2500 :: int] \<noteq> []" by simp
  have b: "Min (set [0, 2500 :: int]) div 1000 < Max (set [0, 2500 :: int]) div 1000"
    by simp
  from n b x_ticks_ten_steps[OF n b] show ?thesis by blast
qed

subsection \<open>Episodes within one block of 1000\<close>

lemma parse_line_no_episode:
  assumes "parse_line maxd raw st = Inr st'" "line_kind raw \<noteq> Episode"
  shows "episodes st' = episodes st"
  using assms
  by (cases "line_kind raw")
     (auto simp: parse_line_kind dest!: metadata_line_fields probability_line_fields)

lemma run_lines_no_episode:
  "run_lines maxd ls st = Inr st' \<Longrightarrow> \<forall>raw \<in> set ls. line_kind raw \<noteq> Episode \<Longrightarrow>
   episodes st' = episodes st"
proof (induction ls arbitrary: st)
  case Nil
  then show ?case by simp
next
  case (Cons l ls)
  from Cons.prems(1) obtain st1 where 1: "parse_line maxd l st = Inr st1"
    and 2: "run_lines maxd ls st1 = Inr st'"
    by (auto split: sum.splits)
  from Cons.prems(2) have "line_kind l \<noteq> Episode" "\<forall>raw \<in> set ls. line_kind raw \<noteq> Episode"
    by simp_all
  with parse_line_no_episode[OF 1] Cons.IH[OF 2] show ?case by simp
qed

lemma same_block_step:
  assumes "Min (set eps) div 1000 = Max (set eps) div (1000::int)"
  shows "(Max (set eps) div 1000 * 1000 + 1 - Min (set eps) div 1000 * 1000) div 10 = 0"
  unfolding assms by simp

lemma plot_same_block:
  assumes "parse_2048_training_data maxd data = Inr (md, eps, ms, ps)"
    and "Min (set eps) div 1000 = Max (set eps) div 1000"
  shows "plot_2048_training_results maxd data = Inl ValueError"
proof -
  from assms(1) obtain fin where fin: "run_lines maxd (data_lines data) init_state = Inr fin"
    and r: "eps = episodes fin"
    by (auto simp: parse_2048_training_data_def split: sum.splits)
  from run_lines_aligned[OF fin aligned_init] have "eps \<noteq> []"
    by (auto simp: aligned_def r)
  from x_ticks_same_block[OF this assms(2)] assms(1) show ?thesis
    by (simp add: plot_2048_training_results_def)
qed

text \<open>
  C8. When the minimum and the maximum of \<open>episodes\<close> lie in the same block of 1000, the
  step \<open>(x_max - x_min) // 10\<close> is \<open>0\<close> and \<open>range\<close> raises \<open>ValueError\<close>: the charts are
  not drawn. This is so in particular for an input without episode lines, for which
  \<open>episodes\<close> is \<open>[0]\<close>.
\<close>

theorem same_block_zero_step:
  "(eps \<noteq> [] \<longrightarrow> Min (set eps) div 1000 = Max (set eps) div 1000 \<longrightarrow>
      (Max (set eps) div 1000 * 1000 + 1 - Min (set eps) div 1000 * 1000) div 10 = 0 \<and>
      x_ticks eps = Inl ValueError) \<and>
   (parse_2048_training_data maxd data = Inr (md, eps', ms, ps) \<longrightarrow>
    Min (set eps') div 1000 = Max (set eps') div 1000 \<longrightarrow>
      plot_2048_training_results maxd data = Inl ValueError) \<and>
   (parse_2048_training_data maxd data = Inr (md, eps', ms, ps) \<longrightarrow>
    (\<forall>raw \<in> set (data_lines data). line_kind raw \<noteq> Episode) \<longrightarrow>
      eps' = [0] \<and> plot_2048_training_results maxd data = Inl ValueError)"
proof (intro conjI impI)
  assume "eps \<noteq> []" and s: "Min (set eps) div 1000 = Max (set eps) div 1000"
  then show "x_ticks eps = Inl ValueError" by (rule x_ticks_same_block)
  from s show "(Max (set eps) div 1000 * 1000 + 1 - Min (set eps) div 1000 * 1000) div 10 = 0"
    by (rule same_block_step)
next
  assume "parse_2048_training_data maxd data = Inr (md, eps', ms, ps)"
    "Min (set eps') div 1000 = Max (set eps') div 1000"
  then show "plot_2048_training_results maxd data = Inl ValueError"
    by (rule plot_same_block)
next
  assume p: "parse_2048_training_data maxd data = Inr (md, eps', ms, ps)"
    and n: "\<forall>raw \<in> set (data_lines data). line_kind raw \<noteq> Episode"
  from p obtain fin where fin: "run_lines maxd (data_lines data) init_state = Inr fin"
    and r: "eps' = episodes fin"
    by (auto simp: parse_2048_training_data_def split: sum.splits)
  from run_lines_no_episode[OF fin n] show e: "eps' = [0]"
    by (simp add: r init_state_def)
  have "Min (set eps') div 1000 = Max (set eps') div 1000"
    unfolding e by simp
  with p show "plot_2048_training_results maxd data = Inl ValueError"
    by (rule plot_same_block)
qed

theorem same_block_zero_step_witness:
  "[0, 999 :: int] \<noteq> [] \<and>
   Min (set [0, 999 :: int]) div 1000 = Max (set [0, 999 :: int]) div 1000 \<and>
   (Max (set [0, 999 :: int]) div 1000 * 1000 + 1 - Min (set [0, 999 :: int]) div 1000 * 1000) div 10 = 0 \<and>
   x_ticks [0, 999] = Inl ValueError \<and>
   parse_2048_training_data 0 ''seed = 42'' = Inr ([''seed'' \<mapsto> ''42''], [0], [PyInt 0], [PyFloat 0]) \<and>
   Min (set [0 :: int]) div 1000 = Max (set [0 :: int]) div 1000 \<and>
   data_lines ''seed = 42'' = [''seed = 42''] \<and>
   line_kind ''seed = 42'' = Metadata ''seed'' \<and>
   plot_2048_training_results 0 ''seed = 42'' = Inl ValueError"
proof -
  have n: "[0, 999 :: int] \<noteq> []" by simp
  have b: "Min (set [0, 999 :: int]) div 1000 = Max (set [0, 999 :: int]) div 1000"
    by simp
  have p: "parse_2048_training_data 0 ''seed = 42'' =
      Inr ([''seed'' \<mapsto> ''42''], [0], [PyInt 0], [PyFloat 0])"
    by (simp add: eval_defs)
  have b0: "Min (set [0 :: int]) div 1000 = Max (set [0 :: int]) div 1000"
    by simp
  have l: "data_lines ''seed = 42'' = [''seed = 42'']"
    by (simp add: data_lines_def strip_def str_split_def isspace_def)
  have k: "line_kind ''seed = 42'' = Metadata ''seed''"
    by (simp add: eval_defs)
  have e: "\<forall>raw \<in> set (data_lines ''seed = 42''). line_kind raw \<noteq> Episode"
    unfolding l using k by simp
  from n b p b0 l k e
    same_block_zero_step[of "[0, 999]" 0 "''seed = 42''" "[''seed'' \<mapsto> ''42'']" "[0]"
      "[PyInt 0]" "[PyFloat 0]"]
  show ?thesis by blast
qed

subsection \<open>The placeholder, the episode and the mean of an episode line\<close>

lemma py_float_error: "py_float g = Inl e \<Longrightarrow> e = ValueError"
  by (auto simp: py_float_def Let_def split: if_splits)

lemma episode_kind_match: "line_kind raw = Episode \<Longrightarrow> re_match episode_re (strip raw)"
  by (auto simp: line_kind_def Let_def split: if_splits)

text \<open>
  C2, as stated: a line of the episode shape whose mean cannot be extracted leaves its
  placeholder in \<open>tileProbability\<close> and nothing in \<open>episodes\<close> and \<open>means\<close>, so that the parse
  returns sequences that are one element out of step. The line \<open>1 mean = 1.2.3 max = 4\<close> has
  the episode shape and its mean is not a number: the search finds the text \<open>1.2.3\<close>,
  \<open>float\<close> raises \<open>ValueError\<close> and the parse returns no sequences at all.
\<close>

theorem mean_extraction_counterexample:
  "line_kind ''1 mean = 1.2.3 max = 4'' = Episode \<and>
   re_search mean_re (strip ''1 mean = 1.2.3 max = 4'') = Some ''1.2.3'' \<and>
   py_float ''1.2.3'' = Inl ValueError \<and>
   parse_line 0 ''1 mean = 1.2.3 max = 4'' init_state = Inl ValueError \<and>
   parse_2048_training_data 0 ''1 mean = 1.2.3 max = 4'' = Inl ValueError"
  by (simp add: eval_defs)

text \<open>
  C2, amended. On a line that takes the episode branch the search for the mean always
  finds a text. When that text is a number (and the episode number is within the digit
  limit of \<open>int\<close>), the line appends the placeholder \<open>0.0\<close> to \<open>tileProbability\<close>, the episode
  number to \<open>episodes\<close> and the mean to \<open>means\<close>, all three together. When the text is not a
  number the line raises \<open>ValueError\<close> and the parse returns nothing. So a parse that
  returns never has \<open>tileProbability\<close> longer than \<open>episodes\<close> and \<open>means\<close>: the three have the
  same length.
\<close>

theorem episode_line_appends_together:
  "(line_kind raw = Episode \<longrightarrow> re_search mean_re (strip raw) \<noteq> None) \<and>
   (line_kind raw = Episode \<longrightarrow> re_search mean_re (strip raw) = Some g \<longrightarrow> py_float g = Inr x \<longrightarrow>
    \<not> too_many_digits maxd (takeWhile isdecimal (strip raw)) \<longrightarrow>
      parse_line maxd raw st =
        Inr (st\<lparr>episodes := episodes st @ [int (digits_val (takeWhile isdecimal (strip raw)))],
                means := means st @ [PyFloat x],
                prob2048 := prob2048 st @ [PyFloat 0]\<rparr>)) \<and>
   (line_kind raw' = Episode \<longrightarrow> re_search mean_re (strip raw') = Some g' \<longrightarrow>
    py_float g' = Inl e \<longrightarrow> parse_line maxd raw' st = Inl ValueError) \<and>
   (parse_2048_training_data maxd data = Inr (md, eps, ms, ps) \<longrightarrow>
      length ps = length eps \<and> length ms = length eps)"
proof (intro conjI impI)
  assume "line_kind raw = Episode"
  then have "re_match episode_re (strip raw)" by (rule episode_kind_match)
  then show "re_search mean_re (strip raw) \<noteq> None" by (rule episode_has_mean)
next
  assume k: "line_kind raw = Episode" and g: "re_search mean_re (strip raw) = Some g"
    and x: "py_float g = Inr x"
    and d: "\<not> too_many_digits maxd (takeWhile isdecimal (strip raw))"
  from k have "re_match episode_re (strip raw)" by (rule episode_kind_match)
  from episode_number[OF this, of maxd] d
  show "parse_line maxd raw st =
        Inr (st\<lparr>episodes := episodes st @ [int (digits_val (takeWhile isdecimal (strip raw)))],
                means := means st @ [PyFloat x],
                prob2048 := prob2048 st @ [PyFloat 0]\<rparr>)"
    by (simp add: parse_line_kind k episode_line_def Let_def g x)
next
  assume k: "line_kind raw' = Episode" and g: "re_search mean_re (strip raw') = Some g'"
    and e: "py_float g' = Inl e"
  from k have "re_match episode_re (strip raw')" by (rule episode_kind_match)
  from episode_number[OF this, of maxd] py_float_error[OF e]
  show "parse_line maxd raw' st = Inl ValueError"
    by (simp add: parse_line_kind k episode_line_def Let_def g e split: if_splits)
next
  assume "parse_2048_training_data maxd data = Inr (md, eps, ms, ps)"
  then obtain fin where fin: "run_lines maxd (data_lines data) init_state = Inr fin"
    and r: "eps = episodes fin" "ms = means fin" "ps = prob2048 fin"
    by (auto simp: parse_2048_training_data_def split: sum.splits)
  from run_lines_aligned[OF fin aligned_init]
  show "length ps = length eps" "length ms = length eps"
    by (simp_all add: aligned_def r)
qed

theorem episode_line_appends_together_witness:
  "line_kind ''7 mean = 1.5 max = 2'' = Episode \<and>
   re_search mean_re (strip ''7 mean = 1.5 max = 2'') = Some ''1.5'' \<and>
   py_float ''1.5'' = Inr (3 / 2) \<and>
   \<not> too_many_digits 0 (takeWhile isdecimal (strip ''7 mean = 1.5 max = 2'')) \<and>
   parse_line 0 ''7 mean = 1.5 max = 2'' init_state =
     Inr (init_state\<lparr>episodes := episodes init_state @
                          [int (digits_val (takeWhile isdecimal (strip ''7 mean = 1.5 max = 2'')))],
                      means := means init_state @ [PyFloat (3 / 2)],
                      prob2048 := prob2048 init_state @ [PyFloat 0]\<rparr>) \<and>
   line_kind ''1 mean = 1.2.3 max = 4'' = Episode \<and>
   re_search mean_re (strip ''1 mean = 1.2.3 max = 4'') = Some ''1.2.3'' \<and>
   py_float ''1.2.3'' = Inl ValueError \<and>
   parse_line 0 ''1 mean = 1.2.3 max = 4'' init_state = Inl ValueError \<and>
   parse_2048_training_data 0 (''7 mean = 1.5 max = 2'' @ [CHR 0x0A] @ ''8 mean = 2 max = 3'') =
     Inr (Map.empty, [0, 7, 8], [PyInt 0, PyFloat (3 / 2), PyFloat 2],
          [PyFloat 0, PyFloat 0, PyFloat 0]) \<and>
   length [PyFloat 0, PyFloat 0, PyFloat 0] = length [0, 7, 8 :: int] \<and>
   length [PyInt 0, PyFloat (3 / 2), PyFloat 2] = length [0, 7, 8 :: int]"
proof -
  have k: "line_kind ''7 mean = 1.5 max = 2'' = Episode"
    by (simp add: eval_defs)
  have g: "re_search mean_re (strip ''7 mean = 1.5 max = 2'') = Some ''1.5''"
    by (simp add: eval_defs)
  have x: "py_float ''1.5'' = Inr (3 / 2)"
    by (simp add: eval_defs)
  have d: "\<not> too_many_digits 0 (takeWhile isdecimal (strip ''7 mean = 1.5 max = 2''))"
    by (simp add: too_many_digits_def)
  have k': "line_kind ''1 mean = 1.2.3 max = 4'' = Episode"
    by (simp add: eval_defs)
  have g': "re_search mean_re (strip ''1 mean = 1.2.3 max = 4'') = Some ''1.2.3''"
    by (simp add: eval_defs)
  have e: "py_float ''1.2.3'' = Inl ValueError"
    by (simp add: eval_defs)
  have p: "parse_2048_training_data 0 (''7 mean = 1.5 max = 2'' @ [CHR 0x0A] @ ''8 mean = 2 max = 3'') =
     Inr (Map.empty, [0, 7, 8], [PyInt 0, PyFloat (3 / 2), PyFloat 2],
          [PyFloat 0, PyFloat 0, PyFloat 0])"
    by (simp add: eval_defs)
  from k g x d k' g' e p
    episode_line_appends_together[of "''7 mean = 1.5 max = 2''" "''1.5''" "3 / 2" 0 init_state
      "''1 mean = 1.2.3 max = 4''" "''1.2.3''" ValueError
      "''7 mean = 1.5 max = 2'' @ [CHR 0x0A] @ ''8 mean = 2 max = 3''" Map.empty "[0, 7, 8]"
      "[PyInt 0, PyFloat (3 / 2), PyFloat 2]" "[PyFloat 0, PyFloat 0, PyFloat 0]"]
  show ?thesis by blast
qed

subsection \<open>The last element of \<open>prob2048\<close>\<close>

lemma aligned_prob_nonempty: "aligned st \<Longrightarrow> prob2048 st \<noteq> []"
  by (auto simp: aligned_def)

lemma probability_line_no_index_error:
  "prob2048 st \<noteq> [] \<Longrightarrow> probability_line m st \<noteq> Inl IndexError"
  by (auto simp: probability_line_def set_last_def py_float_def Let_def
      split: option.splits sum.splits if_splits)

lemma probability_line_overwrites:
  assumes "line_kind raw = Probability" "re_search prob_re (strip raw) = Some g"
    "py_float g = Inr p" "prob2048 st \<noteq> []"
  shows "parse_line maxd raw st = Inr (st\<lparr>prob2048 := butlast (prob2048 st) @ [PyFloat p]\<rparr>)"
  using assms by (simp add: parse_line_kind probability_line_def set_last_def)

lemma parse_line_prob_length:
  assumes "parse_line maxd raw st = Inr st'" "line_kind raw \<noteq> Episode"
  shows "length (prob2048 st') = length (prob2048 st)"
  using assms
  by (cases "line_kind raw")
     (auto simp: parse_line_kind dest!: metadata_line_fields probability_line_fields)

lemma run_lines_prob_length:
  "run_lines maxd ls st = Inr st' \<Longrightarrow> \<forall>l \<in> set ls. line_kind l \<noteq> Episode \<Longrightarrow>
   length (prob2048 st') = length (prob2048 st)"
proof (induction ls arbitrary: st)
  case Nil
  then show ?case by simp
next
  case (Cons l ls)
  from Cons.prems(1) obtain st1 where 1: "parse_line maxd l st = Inr st1"
    and 2: "run_lines maxd ls st1 = Inr st'"
    by (auto split: sum.splits)
  from Cons.prems(2) have "line_kind l \<noteq> Episode" "\<forall>l \<in> set ls. line_kind l \<noteq> Episode"
    by simp_all
  with parse_line_prob_length[OF 1] Cons.IH[OF 2] show ?case by simp
qed

text \<open>
  C10. At every point of a parse, that is after any number of lines of the input have been
  processed, \<open>tileProbability\<close> is not empty, so the assignment to its last element that a
  probability line makes cannot fail with an \<open>IndexError\<close>. On any state with a non-empty
  list the probability line replaces the last element and keeps all the others. As long
  as no episode line has been processed the list holds one element, the initial entry or
  what an earlier probability line has put in its place, and a probability line
  overwrites that element.
\<close>

theorem overwrite_last_well_defined:
  "(run_lines maxd (take n (data_lines data)) init_state = Inr st \<longrightarrow>
      prob2048 st \<noteq> [] \<and> probability_line m st \<noteq> Inl IndexError) \<and>
   (line_kind raw = Probability \<longrightarrow> re_search prob_re (strip raw) = Some g \<longrightarrow>
    py_float g = Inr p \<longrightarrow> prob2048 st' \<noteq> [] \<longrightarrow>
      parse_line maxd raw st' = Inr (st'\<lparr>prob2048 := butlast (prob2048 st') @ [PyFloat p]\<rparr>)) \<and>
   (run_lines maxd (take n (data_lines data)) init_state = Inr st \<longrightarrow>
    (\<forall>l \<in> set (take n (data_lines data)). line_kind l \<noteq> Episode) \<longrightarrow>
    line_kind raw = Probability \<longrightarrow> re_search prob_re (strip raw) = Some g \<longrightarrow>
    py_float g = Inr p \<longrightarrow>
      length (prob2048 st) = 1 \<and> parse_line maxd raw st = Inr (st\<lparr>prob2048 := [PyFloat p]\<rparr>))"
proof (intro conjI impI)
  assume r: "run_lines maxd (take n (data_lines data)) init_state = Inr st"
  from run_lines_aligned[OF r aligned_init] show ne: "prob2048 st \<noteq> []"
    by (rule aligned_prob_nonempty)
  then show "probability_line m st \<noteq> Inl IndexError"
    by (rule probability_line_no_index_error)
next
  assume "line_kind raw = Probability" "re_search prob_re (strip raw) = Some g"
    "py_float g = Inr p" "prob2048 st' \<noteq> []"
  then show "parse_line maxd raw st' =
      Inr (st'\<lparr>prob2048 := butlast (prob2048 st') @ [PyFloat p]\<rparr>)"
    by (rule probability_line_overwrites)
next
  assume r: "run_lines maxd (take n (data_lines data)) init_state = Inr st"
    and n: "\<forall>l \<in> set (take n (data_lines data)). line_kind l \<noteq> Episode"
    and k: "line_kind raw = Probability" "re_search prob_re (strip raw) = Some g"
      "py_float g = Inr p"
  from run_lines_prob_length[OF r n] show l: "length (prob2048 st) = 1"
    by (simp add: init_state_def)
  then obtain v where v: "prob2048 st = [v]"
    by (cases "prob2048 st") auto
  then have "prob2048 st \<noteq> []" by simp
  from probability_line_overwrites[OF k this, of maxd]
  show "parse_line maxd raw st = Inr (st\<lparr>prob2048 := [PyFloat p]\<rparr>)"
    by (simp add: v)
qed

theorem overwrite_last_well_defined_witness:
  "take 2 (data_lines (''seed = 42'' @ [CHR 0x0A] @ ''2048 1.5%'' @ [CHR 0x0A] @ ''2048 3.25%'')) =
     [''seed = 42'', ''2048 1.5%''] \<and>
   line_kind ''seed = 42'' = Metadata ''seed'' \<and>
   line_kind ''2048 1.5%'' = Probability \<and>
   run_lines 0 (take 2 (data_lines (''seed = 42'' @ [CHR 0x0A] @ ''2048 1.5%'' @ [CHR 0x0A] @ ''2048 3.25%'')))
       init_state =
     Inr \<lparr>metadata = [''seed'' \<mapsto> ''42''], episodes = [0], means = [PyInt 0],
          prob2048 = [PyFloat (3 / 2)]\<rparr> \<and>
   prob2048 \<lparr>metadata = [''seed'' \<mapsto> ''42''], episodes = [0], means = [PyInt 0],
          prob2048 = [PyFloat (3 / 2)]\<rparr> \<noteq> [] \<and>
   probability_line (Some ''0.5'') \<lparr>metadata = [''seed'' \<mapsto> ''42''], episodes = [0],
          means = [PyInt 0], prob2048 = [PyFloat (3 / 2)]\<rparr> \<noteq> Inl IndexError \<and>
   line_kind ''2048 3.25%'' = Probability \<and>
   re_search prob_re (strip ''2048 3.25%'') = Some ''3.25'' \<and>
   py_float ''3.25'' = Inr (13 / 4) \<and>
   prob2048 \<lparr>metadata = Map.empty, episodes = [0, 7], means = [PyInt 0, PyFloat 5],
          prob2048 = [PyFloat (1 / 2), PyFloat 0]\<rparr> \<noteq> [] \<and>
   parse_line 0 ''2048 3.25%'' \<lparr>metadata = Map.empty, episodes = [0, 7],
          means = [PyInt 0, PyFloat 5], prob2048 = [PyFloat (1 / 2), PyFloat 0]\<rparr> =
     Inr (\<lparr>metadata = Map.empty, episodes = [0, 7], means = [PyInt 0, PyFloat 5],
          prob2048 = [PyFloat (1 / 2), PyFloat 0]\<rparr>
          \<lparr>prob2048 := butlast (prob2048 \<lparr>metadata = Map.empty, episodes = [0, 7],
              means = [PyInt 0, PyFloat 5], prob2048 = [PyFloat (1 / 2), PyFloat 0]\<rparr>) @
              [PyFloat (13 / 4)]\<rparr>) \<and>
   length (prob2048 \<lparr>metadata = [''seed'' \<mapsto> ''42''], episodes = [0], means = [PyInt 0],
          prob2048 = [PyFloat (3 / 2)]\<rparr>) = 1 \<and>
   parse_line 0 ''2048 3.25%'' \<lparr>metadata = [''seed'' \<mapsto> ''42''], episodes = [0],
          means = [PyInt 0], prob2048 = [PyFloat (3 / 2)]\<rparr> =
     Inr (\<lparr>metadata = [''seed'' \<mapsto> ''42''], episodes = [0], means = [PyInt 0],
          prob2048 = [PyFloat (3 / 2)]\<rparr>\<lparr>prob2048 := [PyFloat (13 / 4)]\<rparr>)"
proof -
  have t: "take 2 (data_lines (''seed = 42'' @ [CHR 0x0A] @ ''2048 1.5%'' @ [CHR 0x0A] @ ''2048 3.25%'')) =
     [''seed = 42'', ''2048 1.5%'']"
    by (simp add: data_lines_def strip_def str_split_def isspace_def)
  have k1: "line_kind ''seed = 42'' = Metadata ''seed''"
    by (simp add: eval_defs)
  have k2: "line_kind ''2048 1.5%'' = Probability"
    by (simp add: eval_defs)
  have r: "run_lines 0 (take 2 (data_lines (''seed = 42'' @ [CHR 0x0A] @ ''2048 1.5%'' @ [CHR 0x0A] @ ''2048 3.25%'')))
       init_state =
     Inr \<lparr>metadata = [''seed'' \<mapsto> ''42''], episodes = [0], means = [PyInt 0],
          prob2048 = [PyFloat (3 / 2)]\<rparr>"
    unfolding t by (simp add: eval_defs)
  have n: "\<forall>l \<in> set (take 2 (data_lines (''seed = 42'' @ [CHR 0x0A] @ ''2048 1.5%'' @ [CHR 0x0A] @ ''2048 3.25%''))).
      line_kind l \<noteq> Episode"
    unfolding t using k1 k2 by simp
  have k: "line_kind ''2048 3.25%'' = Probability"
    by (simp add: eval_defs)
  have s: "re_search prob_re (strip ''2048 3.25%'') = Some ''3.25''"
    by (simp add: eval_defs)
  have f: "py_float ''3.25'' = Inr (13 / 4)"
    by (simp add: eval_defs)
  have ne: "prob2048 \<lparr>metadata = Map.empty, episodes = [0, 7], means = [PyInt 0, PyFloat 5],
          prob2048 = [PyFloat (1 / 2), PyFloat 0]\<rparr> \<noteq> []"
    by simp
  from t k1 k2 r n k s f ne
    overwrite_last_well_defined[of 0 2
      "''seed = 42'' @ [CHR 0x0A] @ ''2048 1.5%'' @ [CHR 0x0A] @ ''2048 3.25%''"
      "\<lparr>metadata = [''seed'' \<mapsto> ''42''], episodes = [0], means = [PyInt 0],
          prob2048 = [PyFloat (3 / 2)]\<rparr>"
      "Some ''0.5''" "''2048 3.25%''" "''3.25''" "13 / 4"
      "\<lparr>metadata = Map.empty, episodes = [0, 7], means = [PyInt 0, PyFloat 5],
          prob2048 = [PyFloat (1 / 2), PyFloat 0]\<rparr>"]
  show ?thesis by blast
qed

subsection \<open>What the result depends on\<close>














end
